theory Spec2Isabelle
  imports Complex_Main "HOL-Library.Multiset"
begin

section \<open>Column values\<close>

text \<open>
  Every column of a Polars frame is nullable, so a cell is an \<open>option\<close>: \<open>None\<close> is
  null.  A Float64 cell is a finite number, one of the two infinities, or NaN.  Finite
  values are kept as reals: rounding and overflow of finite results are not modelled, and
  only the sample rows evaluate a finite quotient.
\<close>

datatype f64 = Fin real | PInf | NInf | NaN

text \<open>
  Comparison of floats in Polars is a total order in which every NaN equals every NaN and
  is greater than every other value: \<open>NInf < Fin x < PInf < NaN\<close>.
\<close>

fun f64_gt :: "f64 \<Rightarrow> f64 \<Rightarrow> bool" where
  "f64_gt NaN NaN = False"
| "f64_gt NaN _ = True"
| "f64_gt _ NaN = False"
| "f64_gt PInf PInf = False"
| "f64_gt PInf _ = True"
| "f64_gt _ PInf = False"
| "f64_gt NInf _ = False"
| "f64_gt (Fin a) NInf = True"
| "f64_gt (Fin a) (Fin b) = (a > b)"

fun f64_eq :: "f64 \<Rightarrow> f64 \<Rightarrow> bool" where
  "f64_eq (Fin a) (Fin b) = (a = b)"
| "f64_eq PInf PInf = True"
| "f64_eq NInf NInf = True"
| "f64_eq NaN NaN = True"
| "f64_eq _ _ = False"

text \<open>
  Float division as IEEE 754 does it where the divisor is zero or an operand is not
  finite.  The only divisor the pipeline ever builds is an integer divided by 60, so a zero
  divisor is always \<open>+0.0\<close>.
\<close>

fun f64_div :: "f64 \<Rightarrow> f64 \<Rightarrow> f64" where
  "f64_div NaN _ = NaN"
| "f64_div _ NaN = NaN"
| "f64_div (Fin a) (Fin b) =
     (if b = 0 then (if a = 0 then NaN else if a > 0 then PInf else NInf)
      else Fin (a / b))"
| "f64_div (Fin a) _ = Fin 0"
| "f64_div PInf (Fin b) = (if b < 0 then NInf else PInf)"
| "f64_div NInf (Fin b) = (if b < 0 then PInf else NInf)"
| "f64_div _ _ = NaN"

definition is_finite :: "f64 \<Rightarrow> bool" where
  "is_finite x = (case x of Fin _ \<Rightarrow> True | _ \<Rightarrow> False)"

subsection \<open>Three-valued logic of expressions\<close>

text \<open>
  A comparison with a null operand is null; \<open>&\<close>, \<open>|\<close> and \<open>~\<close> follow Kleene logic;
  \<open>filter\<close> keeps exactly the rows whose predicate is true, so a null predicate drops
  the row.
\<close>

definition k_and :: "bool option \<Rightarrow> bool option \<Rightarrow> bool option" where
  "k_and a b =
     (if a = Some False \<or> b = Some False then Some False
      else if a = Some True \<and> b = Some True then Some True
      else None)"

definition k_or :: "bool option \<Rightarrow> bool option \<Rightarrow> bool option" where
  "k_or a b =
     (if a = Some True \<or> b = Some True then Some True
      else if a = Some False \<and> b = Some False then Some False
      else None)"

definition k_not :: "bool option \<Rightarrow> bool option" where
  "k_not a = map_option Not a"

definition col_gt :: "f64 option \<Rightarrow> f64 \<Rightarrow> bool option" where
  "col_gt c lit = map_option (\<lambda>v. f64_gt v lit) c"

definition col_eq :: "f64 option \<Rightarrow> f64 \<Rightarrow> bool option" where
  "col_eq c lit = map_option (\<lambda>v. f64_eq v lit) c"

definition col_lt_int :: "int option \<Rightarrow> int \<Rightarrow> bool option" where
  "col_lt_int c lit = map_option (\<lambda>v. v < lit) c"

definition is_in :: "int option \<Rightarrow> int list \<Rightarrow> bool option" where
  "is_in c zs = map_option (\<lambda>v. v \<in> set zs) c"

definition pl_filter :: "('r \<Rightarrow> bool option) \<Rightarrow> 'r list \<Rightarrow> 'r list" where
  "pl_filter p rows = filter (\<lambda>r. p r = Some True) rows"

definition fill_null :: "'a \<Rightarrow> 'a option \<Rightarrow> 'a option" where
  "fill_null d c = (case c of None \<Rightarrow> Some d | Some v \<Rightarrow> Some v)"

section \<open>Ingestion (ingest.py)\<close>

text \<open>
  A row of a monthly source file.  The two vehicle classes differ only in the names of the
  two timestamp columns (\<open>tpep_\<close> for yellow, \<open>lpep_\<close> for green).  Timestamps are
  microseconds since the epoch.
\<close>

record yellow_row =
  tpep_pickup_datetime :: "int option"
  tpep_dropoff_datetime :: "int option"
  PULocationID :: "int option"
  DOLocationID :: "int option"
  trip_distance :: "f64 option"
  fare_amount :: "f64 option"
  total_amount :: "f64 option"
  congestion_surcharge :: "f64 option"
  VendorID :: "int option"

record green_row =
  lpep_pickup_datetime :: "int option"
  lpep_dropoff_datetime :: "int option"
  PULocationID :: "int option"
  DOLocationID :: "int option"
  trip_distance :: "f64 option"
  fare_amount :: "f64 option"
  total_amount :: "f64 option"
  congestion_surcharge :: "f64 option"
  VendorID :: "int option"

text \<open>A row of the unified relation.\<close>

record trip =
  pickup_time :: "int option"
  dropoff_time :: "int option"
  pickup_loc :: "int option"
  dropoff_loc :: "int option"
  trip_distance :: "f64 option"
  fare :: "f64 option"
  total_amount :: "f64 option"
  congestion_surcharge :: "f64 option"
  VendorID :: "int option"

datatype error = NoSources | ShapeError

definition DATA_DIR :: string where
  "DATA_DIR = ''./data''"

definition BASE_URL :: string where
  "BASE_URL = ''https://d37ci6vzurychx.cloudfront.net/trip-data''"

definition digit :: "nat \<Rightarrow> char" where
  "digit d = char_of (48 + d)"

text \<open>The format \<open>{month:02d}\<close> for a month from 1 to 12.\<close>

definition month_str :: "nat \<Rightarrow> string" where
  "month_str m = [digit (m div 10), digit (m mod 10)]"

definition y_name :: "nat \<Rightarrow> string" where
  "y_name m = ''yellow_tripdata_2025-'' @ month_str m @ ''.parquet''"

definition g_name :: "nat \<Rightarrow> string" where
  "g_name m = ''green_tripdata_2025-'' @ month_str m @ ''.parquet''"

text \<open>
  The download loop.  \<open>download_file\<close> touches the network and the disk, so its outcome
  (given url and local path) is a parameter; a month whose download fails is left out of
  the list.
\<close>

definition class_files :: "(string \<Rightarrow> string \<Rightarrow> bool) \<Rightarrow> (nat \<Rightarrow> string) \<Rightarrow> string list" where
  "class_files download_file nm =
     map (\<lambda>m. DATA_DIR @ ''/'' @ nm m)
       (filter (\<lambda>m. download_file (BASE_URL @ ''/'' @ nm m) (DATA_DIR @ ''/'' @ nm m))
          [1..<13])"

text \<open>
  \<open>pl.scan_parquet\<close> of a list of paths reads the rows of the files in order.  An empty
  list has no file to take a schema from: the scan fails ("expected at least 1 source"), and
  with it every query built on it.
\<close>

definition scan_parquet :: "(string \<Rightarrow> 'r list) \<Rightarrow> string list \<Rightarrow> error + 'r list" where
  "scan_parquet contents files =
     (if files = [] then Inl NoSources else Inr (concat (map contents files)))"

definition select_yellow :: "yellow_row \<Rightarrow> trip" where
  "select_yellow s =
     \<lparr> pickup_time = tpep_pickup_datetime s,
       dropoff_time = tpep_dropoff_datetime s,
       pickup_loc = yellow_row.PULocationID s,
       dropoff_loc = yellow_row.DOLocationID s,
       trip_distance = yellow_row.trip_distance s,
       fare = yellow_row.fare_amount s,
       total_amount = yellow_row.total_amount s,
       congestion_surcharge = fill_null (Fin 0) (yellow_row.congestion_surcharge s),
       VendorID = yellow_row.VendorID s \<rparr>"

definition select_green :: "green_row \<Rightarrow> trip" where
  "select_green s =
     \<lparr> pickup_time = lpep_pickup_datetime s,
       dropoff_time = lpep_dropoff_datetime s,
       pickup_loc = green_row.PULocationID s,
       dropoff_loc = green_row.DOLocationID s,
       trip_distance = green_row.trip_distance s,
       fare = green_row.fare_amount s,
       total_amount = green_row.total_amount s,
       congestion_surcharge = fill_null (Fin 0) (green_row.congestion_surcharge s),
       VendorID = green_row.VendorID s \<rparr>"

text \<open>
  The two projections and their concatenation.  The frames are lazy, so a failing scan
  surfaces when a query on the result is collected; the model reports it at once.
\<close>

definition unify ::
    "(string \<Rightarrow> yellow_row list) \<Rightarrow> (string \<Rightarrow> green_row list) \<Rightarrow>
     string list \<Rightarrow> string list \<Rightarrow> error + trip list" where
  "unify yellow_contents green_contents yellow_files green_files =
     (case scan_parquet yellow_contents yellow_files of
        Inl e \<Rightarrow> Inl e
      | Inr ys \<Rightarrow>
          (case scan_parquet green_contents green_files of
             Inl e \<Rightarrow> Inl e
           | Inr gs \<Rightarrow> Inr (map select_yellow ys @ map select_green gs)))"

definition ingest_and_unify ::
    "(string \<Rightarrow> string \<Rightarrow> bool) \<Rightarrow> (string \<Rightarrow> yellow_row list) \<Rightarrow>
     (string \<Rightarrow> green_row list) \<Rightarrow> error + trip list" where
  "ingest_and_unify download_file yellow_contents green_contents =
     unify yellow_contents green_contents
       (class_files download_file y_name) (class_files download_file g_name)"

section \<open>Feature engineering (pipeline.py, step 2)\<close>

record dtrip = trip +
  duration_min :: "int option"
  date :: "int option"
  hour :: "int option"
  weekday :: "int option"
  speed_mph :: "f64 option"

text \<open>Integer division that truncates toward zero, as on machine integers.\<close>

definition trunc_div :: "int \<Rightarrow> int \<Rightarrow> int" where
  "trunc_div a b = sgn a * sgn b * (\<bar>a\<bar> div \<bar>b\<bar>)"

definition US_PER_MINUTE :: int where
  "US_PER_MINUTE = 60000000"

definition US_PER_HOUR :: int where
  "US_PER_HOUR = 3600000000"

definition US_PER_DAY :: int where
  "US_PER_DAY = 86400000000"

text \<open>
  \<open>dt.total_minutes()\<close> of a duration is an Int64: the number of whole minutes in it,
  the remainder cut off.
\<close>

definition total_minutes :: "int \<Rightarrow> int" where
  "total_minutes d = trunc_div d US_PER_MINUTE"

definition sub_opt :: "int option \<Rightarrow> int option \<Rightarrow> int option" where
  "sub_opt a b = (case (a, b) of (Some x, Some y) \<Rightarrow> Some (x - y) | _ \<Rightarrow> None)"

text \<open>Calendar parts of a timestamp; a date is a number of days since 1970-01-01.\<close>

definition dt_date :: "int \<Rightarrow> int" where
  "dt_date t = t div US_PER_DAY"

definition dt_hour :: "int \<Rightarrow> int" where
  "dt_hour t = (t mod US_PER_DAY) div US_PER_HOUR"

text \<open>ISO weekday, Monday = 1 to Sunday = 7; 1970-01-01 was a Thursday.\<close>

definition dt_weekday :: "int \<Rightarrow> int" where
  "dt_weekday t = (dt_date t + 3) mod 7 + 1"

text \<open>\<open>trip_distance / (duration_min / 60)\<close>: the inner division turns the integer into a float.\<close>

definition speed_of :: "f64 option \<Rightarrow> int option \<Rightarrow> f64 option" where
  "speed_of td dur =
     (case (td, dur) of
        (Some x, Some m) \<Rightarrow> Some (f64_div x (Fin (real_of_int m / 60)))
      | _ \<Rightarrow> None)"

definition derive :: "trip \<Rightarrow> dtrip" where
  "derive r =
     (let dur = map_option total_minutes (sub_opt (dropoff_time r) (pickup_time r))
      in trip.extend r
           (dtrip.fields dur
              (map_option dt_date (pickup_time r))
              (map_option dt_hour (pickup_time r))
              (map_option dt_weekday (pickup_time r))
              (speed_of (trip.trip_distance r) dur)))"

definition features :: "trip list \<Rightarrow> dtrip list" where
  "features q = map derive q"

section \<open>The ghost trip audit (pipeline.py, step 3)\<close>

definition ghost_criteria :: "dtrip \<Rightarrow> bool option" where
  "ghost_criteria r =
     k_or
       (k_or (col_gt (speed_mph r) (Fin 65))
             (k_and (col_lt_int (duration_min r) 1) (col_gt (fare r) (Fin 20))))
       (k_and (col_eq (trip.trip_distance r) (Fin 0)) (col_gt (fare r) (Fin 0)))"

definition ghost_rows :: "dtrip list \<Rightarrow> dtrip list" where
  "ghost_rows q = pl_filter ghost_criteria q"

definition q_clean :: "dtrip list \<Rightarrow> dtrip list" where
  "q_clean q = pl_filter (\<lambda>r. k_not (ghost_criteria r)) q"

section \<open>Aggregations (pipeline.py, step 4)\<close>

definition CONGESTION_ZONES :: "int list" where
  "CONGESTION_ZONES =
     [12, 13, 43, 45, 48, 50, 68, 79, 87, 88, 90, 100, 107, 113, 114, 116, 120,
      125, 137, 140, 141, 142, 143, 144, 148, 151, 158, 161, 162, 163, 164, 166,
      170, 186, 209, 211, 224, 229, 230, 231, 232, 233, 234, 236, 237, 238, 239,
      243, 244, 246, 249, 261, 262, 263]"

text \<open>
  \<open>group_by\<close>: one group per distinct key (null is a key of its own), holding the rows
  with that key.  Polars returns the groups in no particular order; the model lists them by
  the position of the last row of each key.
\<close>

definition group_by :: "('r \<Rightarrow> 'k) \<Rightarrow> 'r list \<Rightarrow> ('k \<times> 'r list) list" where
  "group_by key rows = map (\<lambda>k. (k, filter (\<lambda>r. key r = k) rows)) (remdups (map key rows))"

subsection \<open>A. Leakage\<close>

record leakage_row =
  lk_pickup_loc :: "int option"
  total_trips :: nat
  missing_surcharge_count :: nat

definition leakage_filter :: "dtrip \<Rightarrow> bool option" where
  "leakage_filter r =
     k_and (k_not (is_in (pickup_loc r) CONGESTION_ZONES))
           (is_in (dropoff_loc r) CONGESTION_ZONES)"

text \<open>\<open>(congestion_surcharge == 0).sum()\<close> counts the rows where the comparison is true.\<close>

definition leakage_group :: "int option \<times> dtrip list \<Rightarrow> leakage_row" where
  "leakage_group g =
     \<lparr> lk_pickup_loc = fst g,
       total_trips = length (snd g),
       missing_surcharge_count =
         length (filter (\<lambda>r. col_eq (trip.congestion_surcharge r) (Fin 0) = Some True) (snd g)) \<rparr>"

definition sort_desc :: "('a \<Rightarrow> nat) \<Rightarrow> 'a list \<Rightarrow> 'a list" where
  "sort_desc key xs = sort_key (\<lambda>x. - int (key x)) xs"

text \<open>
  The order in which the engine hands the groups to the sort is its own choice, and so is
  the order of equal keys after the sort: \<open>engine_order\<close> stands for that choice, and the
  sort of the model keeps equal keys in the order it gives.
\<close>

definition leakage_agg :: "(leakage_row list \<Rightarrow> leakage_row list) \<Rightarrow> dtrip list \<Rightarrow> leakage_row list" where
  "leakage_agg engine_order clean =
     take 10
       (sort_desc missing_surcharge_count
          (engine_order (map leakage_group (group_by pickup_loc (pl_filter leakage_filter clean)))))"

subsection \<open>B. Velocity heatmap\<close>

text \<open>
  The rows that enter the means of the velocity table, and their groups by weekday and
  hour.  The mean itself is float arithmetic and is left out.
\<close>

definition velocity_rows :: "dtrip list \<Rightarrow> dtrip list" where
  "velocity_rows clean = pl_filter (\<lambda>r. is_in (pickup_loc r) CONGESTION_ZONES) clean"

definition velocity_groups :: "dtrip list \<Rightarrow> ((int option \<times> int option) \<times> f64 option list) list" where
  "velocity_groups clean =
     map (\<lambda>g. (fst g, map speed_mph (snd g)))
       (group_by (\<lambda>r. (weekday r, hour r)) (velocity_rows clean))"

subsection \<open>D. Daily trip counts\<close>

definition daily_counts :: "dtrip list \<Rightarrow> (int option \<times> nat) list" where
  "daily_counts clean = map (\<lambda>g. (fst g, length (snd g))) (group_by date clean)"

section \<open>Weather (pipeline.py, fetch\_weather and the join)\<close>

text \<open>Days since 1970-01-01 of a date of the proleptic Gregorian calendar.\<close>

definition days_from_civil :: "int \<Rightarrow> int \<Rightarrow> int \<Rightarrow> int" where
  "days_from_civil y m d =
     (let y' = (if m \<le> 2 then y - 1 else y);
          era = y' div 400;
          yoe = y' - era * 400;
          doy = (153 * (if m > 2 then m - 3 else m + 9) + 2) div 5 + d - 1;
          doe = yoe * 365 + yoe div 4 - yoe div 100 + doy
      in era * 146097 + doe - 719468)"

text \<open>
  \<open>pl.datetime_range(datetime(2025,1,1), datetime(2025,12,31), "1d")\<close> cast to Date: every
  day from the first to the last, both included.
\<close>

definition weather_dates :: "int list" where
  "weather_dates = [days_from_civil 2025 1 1 .. days_from_civil 2025 12 31]"

text \<open>
  The frame is built from the date column and the precipitation values the service
  returned; columns of different heights are rejected.
\<close>

definition fetch_weather :: "f64 list \<Rightarrow> error + (int \<times> f64) list" where
  "fetch_weather precipitation =
     (if length precipitation = length weather_dates
      then Inr (zip weather_dates precipitation) else Inl ShapeError)"

record weather_elasticity_row =
  we_date :: int
  precipitation_mm :: f64
  trip_count :: nat

text \<open>Inner join on \<open>date\<close>; a null key matches nothing.\<close>

definition join_inner ::
    "(int \<times> f64) list \<Rightarrow> (int option \<times> nat) list \<Rightarrow> weather_elasticity_row list" where
  "join_inner weather_df trips_df =
     concat (map (\<lambda>w.
        map (\<lambda>t. \<lparr> we_date = fst w, precipitation_mm = snd w, trip_count = snd t \<rparr>)
          (filter (\<lambda>t. fst t = Some (fst w)) trips_df)) weather_df)"

definition weather_elasticity :: "f64 list \<Rightarrow> dtrip list \<Rightarrow> error + weather_elasticity_row list" where
  "weather_elasticity precipitation clean =
     (case fetch_weather precipitation of
        Inl e \<Rightarrow> Inl e
      | Inr weather_df \<Rightarrow> Inr (join_inner weather_df (daily_counts clean)))"

section \<open>The specification's duration and sample rows\<close>


definition ninety_second_trip :: trip where
  "ninety_second_trip =
     \<lparr> pickup_time = Some 0, dropoff_time = Some 90000000, pickup_loc = Some 7,
       dropoff_loc = Some 161, trip_distance = Some (Fin 1), fare = Some (Fin 5),
       total_amount = Some (Fin 6), congestion_surcharge = Some (Fin 0), VendorID = Some 1 \<rparr>"

definition five_minute_trip :: trip where
  "five_minute_trip =
     \<lparr> pickup_time = Some 0, dropoff_time = Some 300000000, pickup_loc = Some 7,
       dropoff_loc = Some 161, trip_distance = Some (Fin 10), fare = Some (Fin 30),
       total_amount = Some (Fin 33), congestion_surcharge = Some (Fin 0), VendorID = Some 1 \<rparr>"

definition null_distance_trip :: trip where
  "null_distance_trip =
     \<lparr> pickup_time = Some 0, dropoff_time = Some 600000000, pickup_loc = Some 7,
       dropoff_loc = Some 161, trip_distance = None, fare = Some (Fin 5),
       total_amount = Some (Fin 6), congestion_surcharge = Some (Fin 0), VendorID = Some 1 \<rparr>"

definition negative_distance_trip :: trip where
  "negative_distance_trip =
     \<lparr> pickup_time = Some 0, dropoff_time = Some 30000000, pickup_loc = Some 7,
       dropoff_loc = Some 161, trip_distance = Some (Fin (- 1)), fare = Some (Fin 5),
       total_amount = Some (Fin 6), congestion_surcharge = Some (Fin 0), VendorID = Some 1 \<rparr>"

definition instant_trip :: trip where
  "instant_trip =
     \<lparr> pickup_time = Some 0, dropoff_time = Some 0, pickup_loc = Some 7,
       dropoff_loc = Some 161, trip_distance = Some (Fin 2), fare = Some (Fin 5),
       total_amount = Some (Fin 6), congestion_surcharge = Some (Fin 0), VendorID = Some 1 \<rparr>"

text \<open>A float below zero in the order of comparisons: a negative number or \<open>-inf\<close>.\<close>

definition is_negative :: "f64 \<Rightarrow> bool" where
  "is_negative x = f64_gt (Fin 0) x"

text \<open>
  The ghost flag as the specification words it, on the non-null values of speed, duration,
  fare and distance.
\<close>

definition spec_ghost_flag :: "f64 \<Rightarrow> int \<Rightarrow> f64 \<Rightarrow> f64 \<Rightarrow> bool" where
  "spec_ghost_flag speed dur f x =
     (f64_gt speed (Fin 65) \<or> (dur < 1 \<and> f64_gt f (Fin 20)) \<or> (f64_eq x (Fin 0) \<and> f64_gt f (Fin 0)))"

text \<open>A row whose ghost predicate reads no null cell.\<close>

definition classifiable :: "trip \<Rightarrow> bool" where
  "classifiable t =
     (pickup_time t \<noteq> None \<and> dropoff_time t \<noteq> None \<and> trip.trip_distance t \<noteq> None \<and> fare t \<noteq> None)"

definition sample_yellow_row :: yellow_row where
  "sample_yellow_row =
     \<lparr> tpep_pickup_datetime = Some 0, tpep_dropoff_datetime = Some 600000000,
       PULocationID = Some 7, DOLocationID = Some 161, trip_distance = Some (Fin 2),
       fare_amount = Some (Fin 12), total_amount = Some (Fin 15),
       congestion_surcharge = None, VendorID = Some 1 \<rparr>"

definition sample_green_row :: green_row where
  "sample_green_row =
     \<lparr> lpep_pickup_datetime = Some 0, lpep_dropoff_datetime = Some 900000000,
       PULocationID = Some 74, DOLocationID = Some 75, trip_distance = Some (Fin 3),
       fare_amount = Some (Fin 14), total_amount = Some (Fin 16),
       congestion_surcharge = Some (Fin 2.5), VendorID = Some 2 \<rparr>"

text \<open>A run in which every yellow file is on disk and no green file can be had.\<close>

definition yellow_only :: "string \<Rightarrow> string \<Rightarrow> bool" where
  "yellow_only url local_path = (take 14 local_path = ''./data/yellow_'')"

text \<open>A run in which only the two January files can be had.\<close>

definition january_only :: "string \<Rightarrow> string \<Rightarrow> bool" where
  "january_only url local_path = (take 2 (drop (length local_path - 10) local_path) = ''01'')"

text \<open>
  The rows of a frame that the leakage table counts for the pickup zone \<open>k\<close>: picked up in
  \<open>k\<close> and dropped off inside the congestion zones.
\<close>

definition leakage_rows_of :: "int \<Rightarrow> dtrip list \<Rightarrow> dtrip list" where
  "leakage_rows_of k clean =
     filter (\<lambda>r. pickup_loc r = Some k \<and> is_in (dropoff_loc r) CONGESTION_ZONES = Some True) clean"

definition unpaid_crossing :: trip where
  "unpaid_crossing =
     \<lparr> pickup_time = Some 0, dropoff_time = Some 600000000, pickup_loc = Some 7,
       dropoff_loc = Some 161, trip_distance = Some (Fin 2), fare = Some (Fin 12),
       total_amount = Some (Fin 15), congestion_surcharge = Some (Fin 0), VendorID = Some 1 \<rparr>"

definition paid_crossing :: trip where
  "paid_crossing =
     \<lparr> pickup_time = Some 0, dropoff_time = Some 600000000, pickup_loc = Some 7,
       dropoff_loc = Some 161, trip_distance = Some (Fin 2), fare = Some (Fin 12),
       total_amount = Some (Fin 17.5), congestion_surcharge = Some (Fin 2.5), VendorID = Some 2 \<rparr>"

definition inside_trip :: trip where
  "inside_trip =
     \<lparr> pickup_time = Some 0, dropoff_time = Some 600000000, pickup_loc = Some 161,
       dropoff_loc = Some 162, trip_distance = Some (Fin 1), fare = Some (Fin 9),
       total_amount = Some (Fin 11), congestion_surcharge = Some (Fin 0), VendorID = Some 1 \<rparr>"

definition sample_trips :: "trip list" where
  "sample_trips = [unpaid_crossing, paid_crossing, inside_trip]"

text \<open>A trip at ten past midnight on 2025-01-01 and one in the last hour of 2025-12-31.\<close>

definition new_year_trip :: trip where
  "new_year_trip =
     \<lparr> pickup_time = Some 1735690200000000, dropoff_time = Some 1735690800000000,
       pickup_loc = Some 161, dropoff_loc = Some 162, trip_distance = Some (Fin 1),
       fare = Some (Fin 9), total_amount = Some (Fin 11),
       congestion_surcharge = Some (Fin 0.75), VendorID = Some 1 \<rparr>"

definition year_end_trip :: trip where
  "year_end_trip =
     \<lparr> pickup_time = Some 1767222000000000, dropoff_time = Some 1767222600000000,
       pickup_loc = Some 161, dropoff_loc = Some 162, trip_distance = Some (Fin 1),
       fare = Some (Fin 9), total_amount = Some (Fin 11),
       congestion_surcharge = Some (Fin 0.75), VendorID = Some 1 \<rparr>"

text \<open>A year of daily precipitation values, all zero.\<close>

definition dry_year :: "f64 list" where
  "dry_year = replicate 365 (Fin 0)"

section \<open>Basic facts\<close>

lemma k_not_true: "k_not a = Some True \<longleftrightarrow> a = Some False"
  by (cases a) (auto simp: k_not_def)

lemma derive_fields:
  "pickup_time (derive t) = pickup_time t"
  "dropoff_time (derive t) = dropoff_time t"
  "fare (derive t) = fare t"
  "trip.trip_distance (derive t) = trip.trip_distance t"
  "trip.congestion_surcharge (derive t) = trip.congestion_surcharge t"
  "pickup_loc (derive t) = pickup_loc t"
  "dropoff_loc (derive t) = dropoff_loc t"
  "duration_min (derive t) = map_option total_minutes (sub_opt (dropoff_time t) (pickup_time t))"
  "speed_mph (derive t) = speed_of (trip.trip_distance t) (duration_min (derive t))"
  "date (derive t) = map_option dt_date (pickup_time t)"
  by (simp_all add: derive_def Let_def trip.defs dtrip.defs)




section \<open>Duration\<close>




section \<open>The ghost and clean partitions\<close>

lemma ghost_clean_disjoint: "set (ghost_rows q) \<inter> set (q_clean q) = {}"
  by (auto simp: ghost_rows_def q_clean_def pl_filter_def k_not_true)

lemma ghost_clean_mset:
  "mset (ghost_rows q) + mset (q_clean q) = mset (filter (\<lambda>r. ghost_criteria r \<noteq> None) q)"
proof (induction q)
  case Nil
  show ?case by (simp add: ghost_rows_def q_clean_def pl_filter_def)
next
  case (Cons a q)
  then show ?case
    by (cases "ghost_criteria a") (auto simp: ghost_rows_def q_clean_def pl_filter_def k_not_true)
qed

lemma ghost_criteria_nonnull:
  assumes "speed_mph r = Some s" "duration_min r = Some m" "fare r = Some f"
    "trip.trip_distance r = Some x"
  shows "ghost_criteria r = Some (spec_ghost_flag s m f x)"
  using assms
  by (auto simp: ghost_criteria_def spec_ghost_flag_def k_or_def k_and_def col_gt_def col_eq_def
        col_lt_int_def)

lemma classifiable_derive:
  assumes "classifiable t"
  shows "\<exists>s m f x. speed_mph (derive t) = Some s \<and> duration_min (derive t) = Some m \<and>
           fare t = Some f \<and> trip.trip_distance t = Some x \<and>
           ghost_criteria (derive t) = Some (spec_ghost_flag s m f x)"
proof -
  from assms obtain p d x f where
    t: "pickup_time t = Some p" "dropoff_time t = Some d" "trip.trip_distance t = Some x"
       "fare t = Some f"
    by (auto simp: classifiable_def)
  then have s: "speed_mph (derive t) = Some (f64_div x (Fin (real_of_int (total_minutes (d - p)) / 60)))"
    and m: "duration_min (derive t) = Some (total_minutes (d - p))"
    by (simp_all add: derive_fields sub_opt_def speed_of_def)
  have "ghost_criteria (derive t) =
      Some (spec_ghost_flag (f64_div x (Fin (real_of_int (total_minutes (d - p)) / 60)))
              (total_minutes (d - p)) f x)"
    by (rule ghost_criteria_nonnull [OF s m]) (simp_all add: derive_fields t)
  with s m t show ?thesis by blast
qed

lemma classifiable_all_kept:
  assumes "\<forall>t\<in>set rows. classifiable t"
  shows "filter (\<lambda>r. ghost_criteria r \<noteq> None) (features rows) = features rows"
proof -
  have "\<forall>r\<in>set (features rows). ghost_criteria r \<noteq> None"
    using assms classifiable_derive by (fastforce simp: features_def)
  then show ?thesis by (simp add: filter_id_conv)
qed

text \<open>
  C1, as stated, fails: a row whose \<open>trip_distance\<close> is null (ten minutes long, fare 5) has
  a null ghost predicate, and is in neither the ghost nor the clean subset.
\<close>

theorem partition_counterexample:
  "derive null_distance_trip \<in> set (features [null_distance_trip]) \<and>
   ghost_criteria (derive null_distance_trip) = None \<and>
   derive null_distance_trip \<notin> set (ghost_rows (features [null_distance_trip])) \<and>
   derive null_distance_trip \<notin> set (q_clean (features [null_distance_trip]))"
proof -
  have "ghost_criteria (derive null_distance_trip) = None"
    by (simp add: ghost_criteria_def derive_fields null_distance_trip_def sub_opt_def
          speed_of_def k_or_def k_and_def col_gt_def col_eq_def col_lt_int_def
          total_minutes_def trunc_div_def US_PER_MINUTE_def)
  then show ?thesis
    by (simp add: features_def ghost_rows_def q_clean_def pl_filter_def k_not_def)
qed

text \<open>
  C1, amended: the ghost and clean subsets are disjoint for every input, and together they
  hold exactly the rows whose ghost predicate is not null (ghost where it is true, clean
  where it is false).  For a row whose timestamps, \<open>trip_distance\<close> and \<open>fare\<close> are not
  null the predicate is not null and is the ghost flag of the specification, so a
  relation of such rows is split into two subsets that make up all of it.
\<close>

theorem ghost_clean_partition:
  "set (ghost_rows (features rows)) \<inter> set (q_clean (features rows)) = {} \<and>
   mset (ghost_rows (features rows)) + mset (q_clean (features rows)) =
     mset (filter (\<lambda>r. ghost_criteria r \<noteq> None) (features rows)) \<and>
   ghost_rows (features rows) = filter (\<lambda>r. ghost_criteria r = Some True) (features rows) \<and>
   q_clean (features rows) = filter (\<lambda>r. ghost_criteria r = Some False) (features rows) \<and>
   (\<forall>t. classifiable t \<longrightarrow>
      (\<exists>s m f x. speed_mph (derive t) = Some s \<and> duration_min (derive t) = Some m \<and>
         fare t = Some f \<and> trip.trip_distance t = Some x \<and>
         ghost_criteria (derive t) = Some (spec_ghost_flag s m f x))) \<and>
   ((\<forall>t\<in>set rows. classifiable t) \<longrightarrow>
      mset (ghost_rows (features rows)) + mset (q_clean (features rows)) = mset (features rows))"
proof (intro conjI allI impI)
  show "set (ghost_rows (features rows)) \<inter> set (q_clean (features rows)) = {}"
    by (rule ghost_clean_disjoint)
  show "mset (ghost_rows (features rows)) + mset (q_clean (features rows)) =
     mset (filter (\<lambda>r. ghost_criteria r \<noteq> None) (features rows))"
    by (rule ghost_clean_mset)
  show "ghost_rows (features rows) = filter (\<lambda>r. ghost_criteria r = Some True) (features rows)"
    by (simp add: ghost_rows_def pl_filter_def)
  show "q_clean (features rows) = filter (\<lambda>r. ghost_criteria r = Some False) (features rows)"
    by (simp add: q_clean_def pl_filter_def k_not_true)
next
  fix t assume "classifiable t"
  then show "\<exists>s m f x. speed_mph (derive t) = Some s \<and> duration_min (derive t) = Some m \<and>
         fare t = Some f \<and> trip.trip_distance t = Some x \<and>
         ghost_criteria (derive t) = Some (spec_ghost_flag s m f x)"
    by (rule classifiable_derive)
next
  assume "\<forall>t\<in>set rows. classifiable t"
  then show "mset (ghost_rows (features rows)) + mset (q_clean (features rows)) = mset (features rows)"
    using ghost_clean_mset [of "features rows"] classifiable_all_kept [of rows]
    by (simp only:)
qed

theorem ghost_clean_partition_witness:
  "classifiable five_minute_trip \<and> classifiable ninety_second_trip \<and>
   mset (ghost_rows (features [five_minute_trip, ninety_second_trip])) +
     mset (q_clean (features [five_minute_trip, ninety_second_trip])) =
     mset (features [five_minute_trip, ninety_second_trip]) \<and>
   ghost_criteria (derive five_minute_trip) = Some True \<and>
   ghost_criteria (derive ninety_second_trip) = Some False"
proof -
  have c: "classifiable five_minute_trip" "classifiable ninety_second_trip"
    by (simp_all add: classifiable_def five_minute_trip_def ninety_second_trip_def)
  then have "\<forall>t\<in>set [five_minute_trip, ninety_second_trip]. classifiable t"
    by simp
  with ghost_clean_partition [of "[five_minute_trip, ninety_second_trip]"]
  have m: "mset (ghost_rows (features [five_minute_trip, ninety_second_trip])) +
     mset (q_clean (features [five_minute_trip, ninety_second_trip])) =
     mset (features [five_minute_trip, ninety_second_trip])"
    by blast
  have g5: "ghost_criteria (derive five_minute_trip) = Some True"
    by (simp add: ghost_criteria_def derive_fields five_minute_trip_def sub_opt_def
          speed_of_def k_or_def k_and_def col_gt_def col_eq_def col_lt_int_def
          total_minutes_def trunc_div_def US_PER_MINUTE_def)
  have g90: "ghost_criteria (derive ninety_second_trip) = Some False"
    by (simp add: ghost_criteria_def derive_fields ninety_second_trip_def sub_opt_def
          speed_of_def k_or_def k_and_def col_gt_def col_eq_def col_lt_int_def
          total_minutes_def trunc_div_def US_PER_MINUTE_def)
  from c m g5 g90 show ?thesis by blast
qed

section \<open>Zero duration and the speed of clean rows\<close>

lemma negative_distance_derived:
  "duration_min (derive negative_distance_trip) = Some 0"
  "speed_mph (derive negative_distance_trip) = Some NInf"
  "fare (derive negative_distance_trip) = Some (Fin 5)"
  "trip.trip_distance (derive negative_distance_trip) = Some (Fin (- 1))"
  by (simp_all add: derive_fields negative_distance_trip_def sub_opt_def speed_of_def
        total_minutes_def trunc_div_def US_PER_MINUTE_def)

text \<open>
  C3, as stated, fails: a row of zero duration with a negative \<open>trip_distance\<close> and a fare
  of 5 has \<open>speed_mph = -inf\<close>, which is not above 65; no branch of the ghost predicate
  holds, and the row stays in the clean partition with a speed that is not finite.
\<close>

theorem zero_duration_counterexample:
  "duration_min (derive negative_distance_trip) = Some 0 \<and>
   ghost_criteria (derive negative_distance_trip) = Some False \<and>
   derive negative_distance_trip \<in> set (q_clean (features [negative_distance_trip])) \<and>
   speed_mph (derive negative_distance_trip) = Some NInf \<and>
   is_finite NInf = False"
proof -
  have g: "ghost_criteria (derive negative_distance_trip) = Some False"
    using ghost_criteria_nonnull [OF negative_distance_derived(2) negative_distance_derived(1)
        negative_distance_derived(3) negative_distance_derived(4)]
    by (simp add: spec_ghost_flag_def)
  then have "derive negative_distance_trip \<in> set (q_clean (features [negative_distance_trip]))"
    by (simp add: q_clean_def features_def pl_filter_def k_not_true)
  with g show ?thesis
    by (simp add: negative_distance_derived is_finite_def)
qed

lemma zero_div: "\<not> is_negative x \<Longrightarrow> f64_gt (f64_div x (Fin 0)) (Fin 65)"
  by (cases x) (auto simp: is_negative_def)

lemma k_or_true_left: "k_or (k_or (Some True) b) c = Some True"
  by (simp add: k_or_def)

lemma zero_duration_ghost:
  assumes "duration_min (derive t) = Some 0" "trip.trip_distance t = Some x" "\<not> is_negative x"
  shows "ghost_criteria (derive t) = Some True"
proof -
  have "speed_mph (derive t) = Some (f64_div x (Fin 0))"
    using assms(1,2) by (simp add: derive_fields(9) speed_of_def)
  then have "col_gt (speed_mph (derive t)) (Fin 65) = Some True"
    using zero_div [OF assms(3)] by (simp add: col_gt_def)
  then show ?thesis
    by (simp add: ghost_criteria_def k_or_true_left)
qed

lemma clean_speed:
  assumes "r \<in> set (q_clean q)"
  shows "speed_mph r \<noteq> Some PInf \<and> speed_mph r \<noteq> Some NaN"
proof -
  from assms have g: "ghost_criteria r = Some False"
    by (auto simp: q_clean_def pl_filter_def k_not_true)
  have "col_gt (speed_mph r) (Fin 65) \<noteq> Some True"
    using g by (auto simp: ghost_criteria_def k_or_def split: if_splits)
  then show ?thesis by (auto simp: col_gt_def)
qed

text \<open>
  C3, amended: every row with \<open>duration_min = 0\<close> whose \<open>trip_distance\<close> is not null and
  not negative satisfies the ghost predicate (its speed is \<open>+inf\<close> or NaN, both above 65
  in the order of comparisons) and is therefore not clean; and no row of the clean
  partition, so no speed that enters a mean of the velocity table, is \<open>+inf\<close> or NaN.
\<close>

theorem zero_duration_is_ghost:
  "(\<forall>x. duration_min (derive t) = Some 0 \<and> trip.trip_distance t = Some x \<and> \<not> is_negative x \<longrightarrow>
      ghost_criteria (derive t) = Some True \<and> derive t \<notin> set (q_clean q)) \<and>
   (\<forall>r\<in>set (q_clean q). speed_mph r \<noteq> Some PInf \<and> speed_mph r \<noteq> Some NaN) \<and>
   (\<forall>g\<in>set (velocity_groups (q_clean q)). Some PInf \<notin> set (snd g) \<and> Some NaN \<notin> set (snd g))"
proof (intro conjI allI impI ballI)
  fix x
  assume a: "duration_min (derive t) = Some 0 \<and> trip.trip_distance t = Some x \<and> \<not> is_negative x"
  then show g: "ghost_criteria (derive t) = Some True"
    using zero_duration_ghost by blast
  show "derive t \<notin> set (q_clean q)"
    using g by (simp add: q_clean_def pl_filter_def k_not_true)
next
  fix r assume "r \<in> set (q_clean q)"
  then show "speed_mph r \<noteq> Some PInf" "speed_mph r \<noteq> Some NaN"
    using clean_speed by blast+
next
  fix g assume "g \<in> set (velocity_groups (q_clean q))"
  then have "set (snd g) \<subseteq> speed_mph ` set (q_clean q)"
    by (auto simp: velocity_groups_def group_by_def velocity_rows_def pl_filter_def)
  then show "Some PInf \<notin> set (snd g)" "Some NaN \<notin> set (snd g)"
    using clean_speed by (metis imageE subsetD)+
qed

theorem zero_duration_is_ghost_witness:
  "duration_min (derive instant_trip) = Some 0 \<and>
   trip.trip_distance instant_trip = Some (Fin 2) \<and>
   is_negative (Fin 2) = False \<and>
   ghost_criteria (derive instant_trip) = Some True \<and>
   q_clean (features [instant_trip, ninety_second_trip]) = [derive ninety_second_trip] \<and>
   speed_mph (derive ninety_second_trip) = Some (Fin 60)"
proof -
  have d: "duration_min (derive instant_trip) = Some 0"
    by (simp add: derive_fields instant_trip_def sub_opt_def total_minutes_def trunc_div_def)
  have x: "trip.trip_distance instant_trip = Some (Fin 2)"
    by (simp add: instant_trip_def)
  have n: "is_negative (Fin 2) = False"
    by (simp add: is_negative_def)
  from zero_duration_is_ghost [of instant_trip "features [instant_trip, ninety_second_trip]"] d x n
  have g: "ghost_criteria (derive instant_trip) = Some True"
    by blast
  have s: "speed_mph (derive ninety_second_trip) = Some (Fin 60)"
    by (simp add: derive_fields ninety_second_trip_def sub_opt_def speed_of_def
          total_minutes_def trunc_div_def US_PER_MINUTE_def)
  have "ghost_criteria (derive ninety_second_trip) = Some False"
    by (simp add: ghost_criteria_def derive_fields ninety_second_trip_def sub_opt_def
          speed_of_def k_or_def k_and_def col_gt_def col_eq_def col_lt_int_def
          total_minutes_def trunc_div_def US_PER_MINUTE_def)
  with g have "q_clean (features [instant_trip, ninety_second_trip]) = [derive ninety_second_trip]"
    by (simp add: q_clean_def features_def pl_filter_def k_not_true)
  with d x n g s show ?thesis by blast
qed

section \<open>Null surcharges\<close>

lemma select_surcharge:
  "trip.congestion_surcharge (select_yellow y) =
     Some (case yellow_row.congestion_surcharge y of None \<Rightarrow> Fin 0 | Some v \<Rightarrow> v)"
  "trip.congestion_surcharge (select_green g) =
     Some (case green_row.congestion_surcharge g of None \<Rightarrow> Fin 0 | Some v \<Rightarrow> v)"
  by (simp_all add: select_yellow_def select_green_def fill_null_def split: option.splits)

lemma unify_surcharge:
  assumes "unify yc gc yf gf = Inr rows" "t \<in> set rows"
  shows "trip.congestion_surcharge t \<noteq> None"
  using assms
  by (auto simp: unify_def select_surcharge split: sum.splits)

text \<open>
  C7: for both vehicle classes a null \<open>congestion_surcharge\<close> of a source row becomes 0.0
  and any other value is kept, so the surcharge of every unified row, and of every row the
  feature step, the classifier and the aggregates read, is not null.
\<close>

theorem surcharge_never_null:
  "trip.congestion_surcharge (select_yellow y) =
     Some (case yellow_row.congestion_surcharge y of None \<Rightarrow> Fin 0 | Some v \<Rightarrow> v) \<and>
   trip.congestion_surcharge (select_green g) =
     Some (case green_row.congestion_surcharge g of None \<Rightarrow> Fin 0 | Some v \<Rightarrow> v) \<and>
   (ingest_and_unify download_file yc gc = Inr rows \<longrightarrow>
      (\<forall>t\<in>set rows. trip.congestion_surcharge t \<noteq> None) \<and>
      (\<forall>r\<in>set (features rows). trip.congestion_surcharge r \<noteq> None) \<and>
      (\<forall>r\<in>set (ghost_rows (features rows)). trip.congestion_surcharge r \<noteq> None) \<and>
      (\<forall>r\<in>set (q_clean (features rows)). trip.congestion_surcharge r \<noteq> None))"
proof (intro conjI impI)
  assume "ingest_and_unify download_file yc gc = Inr rows"
  then have u: "\<forall>t\<in>set rows. trip.congestion_surcharge t \<noteq> None"
    using unify_surcharge by (auto simp: ingest_and_unify_def)
  then show "\<forall>t\<in>set rows. trip.congestion_surcharge t \<noteq> None" .
  from u show f: "\<forall>r\<in>set (features rows). trip.congestion_surcharge r \<noteq> None"
    by (auto simp: features_def derive_fields)
  from f show "\<forall>r\<in>set (ghost_rows (features rows)). trip.congestion_surcharge r \<noteq> None"
    by (auto simp: ghost_rows_def pl_filter_def)
  from f show "\<forall>r\<in>set (q_clean (features rows)). trip.congestion_surcharge r \<noteq> None"
    by (auto simp: q_clean_def pl_filter_def)
qed (rule select_surcharge)+

lemma january_files:
  "class_files january_only y_name = [''./data/yellow_tripdata_2025-01.parquet'']"
  "class_files january_only g_name = [''./data/green_tripdata_2025-01.parquet'']"
  by code_simp+

theorem surcharge_never_null_witness:
  "ingest_and_unify january_only (\<lambda>_. [sample_yellow_row]) (\<lambda>_. [sample_green_row]) =
     Inr [select_yellow sample_yellow_row, select_green sample_green_row] \<and>
   yellow_row.congestion_surcharge sample_yellow_row = None \<and>
   trip.congestion_surcharge (select_yellow sample_yellow_row) = Some (Fin 0) \<and>
   trip.congestion_surcharge (select_green sample_green_row) = Some (Fin 2.5) \<and>
   trip.congestion_surcharge (derive (select_yellow sample_yellow_row)) \<noteq> None"
proof -
  let ?rows = "[select_yellow sample_yellow_row, select_green sample_green_row]"
  have i: "ingest_and_unify january_only (\<lambda>_. [sample_yellow_row]) (\<lambda>_. [sample_green_row]) =
      Inr ?rows"
    by (simp add: ingest_and_unify_def january_files unify_def scan_parquet_def)
  from surcharge_never_null [of sample_yellow_row sample_green_row january_only
      "\<lambda>_. [sample_yellow_row]" "\<lambda>_. [sample_green_row]" ?rows] i
  have y: "trip.congestion_surcharge (select_yellow sample_yellow_row) =
        Some (case yellow_row.congestion_surcharge sample_yellow_row of None \<Rightarrow> Fin 0 | Some v \<Rightarrow> v)"
    and g: "trip.congestion_surcharge (select_green sample_green_row) =
        Some (case green_row.congestion_surcharge sample_green_row of None \<Rightarrow> Fin 0 | Some v \<Rightarrow> v)"
    and f: "\<forall>r\<in>set (features ?rows). trip.congestion_surcharge r \<noteq> None"
    by blast+
  have n: "yellow_row.congestion_surcharge sample_yellow_row = None"
    by (simp add: sample_yellow_row_def)
  have "green_row.congestion_surcharge sample_green_row = Some (Fin 2.5)"
    by (simp add: sample_green_row_def)
  with i y g f n show ?thesis
    by (simp add: features_def)
qed

section \<open>A vehicle class without files\<close>

lemma unify_empty_class:
  "unify yc gc [] gf = Inl NoSources" "unify yc gc yf [] = Inl NoSources"
  by (simp_all add: unify_def scan_parquet_def split: sum.splits)

text \<open>
  C5 does not hold of the code: when all twelve yellow files are present and no green file
  can be had, the green path list is empty, the scan of it fails, and the unified
  relation is an error instead of the yellow rows.
\<close>

theorem empty_green_set_fails:
  "length (class_files yellow_only y_name) = 12 \<and>
   class_files yellow_only g_name = [] \<and>
   ingest_and_unify yellow_only (\<lambda>_. [sample_yellow_row]) (\<lambda>_. [sample_green_row]) =
     Inl NoSources"
  by code_simp

section \<open>The feature step is row-wise\<close>

lemma truncate_derive: "trip.truncate (derive t) = t"
  by (simp add: derive_def Let_def trip.defs dtrip.defs)

text \<open>
  C8: the feature step maps each row to one row, in order, that carries the five derived
  columns and, cut back to the unified columns, is the row it came from; no row is
  dropped or added, and the result for a row does not depend on the other rows.
\<close>

theorem features_row_wise:
  "length (features rows) = length rows \<and>
   map trip.truncate (features rows) = rows \<and>
   features (xs @ ys) = features xs @ features ys \<and>
   features (t # rows) = derive t # features rows \<and>
   map duration_min (features rows) =
     map (\<lambda>t. map_option total_minutes (sub_opt (dropoff_time t) (pickup_time t))) rows \<and>
   map date (features rows) = map (\<lambda>t. map_option dt_date (pickup_time t)) rows \<and>
   map hour (features rows) = map (\<lambda>t. map_option dt_hour (pickup_time t)) rows \<and>
   map weekday (features rows) = map (\<lambda>t. map_option dt_weekday (pickup_time t)) rows \<and>
   map speed_mph (features rows) =
     map (\<lambda>t. speed_of (trip.trip_distance t)
            (map_option total_minutes (sub_opt (dropoff_time t) (pickup_time t)))) rows"
  by (simp add: features_def truncate_derive map_idI derive_def Let_def trip.defs dtrip.defs)

section \<open>The leakage table\<close>

lemma group_by_member:
  assumes "g \<in> set (group_by key rows)"
  shows "fst g \<in> key ` set rows \<and> snd g = filter (\<lambda>r. key r = fst g) rows"
  using assms by (auto simp: group_by_def)

lemma group_by_keys_distinct: "distinct (map fst (group_by key rows))"
  by (simp add: group_by_def comp_def)

lemma group_by_keys: "set (map fst (group_by key rows)) = key ` set rows"
  by (simp add: group_by_def comp_def)

lemma col_eq_zero: "col_eq c (Fin 0) = Some True \<longleftrightarrow> c = Some (Fin 0)"
proof (cases c)
  case None
  then show ?thesis by (simp add: col_eq_def)
next
  case (Some v)
  then show ?thesis by (cases v) (simp_all add: col_eq_def)
qed

lemma leakage_filter_true:
  "leakage_filter r = Some True \<longleftrightarrow>
     (\<exists>k. pickup_loc r = Some k \<and> k \<notin> set CONGESTION_ZONES) \<and>
     is_in (dropoff_loc r) CONGESTION_ZONES = Some True"
  by (cases "pickup_loc r"; cases "dropoff_loc r")
     (simp_all add: leakage_filter_def k_and_def k_not_def is_in_def)

lemma sort_desc_sorted: "sorted_wrt (\<ge>) (map key (sort_desc key xs))"
proof -
  have "sorted (map (\<lambda>x. - int (key x)) (sort_desc key xs))"
    by (simp add: sort_desc_def)
  then have "sorted_wrt (\<lambda>a b. - int (key a) \<le> - int (key b)) (sort_desc key xs)"
    by (simp add: sorted_map)
  then have "sorted_wrt (\<lambda>a b. key a \<ge> key b) (sort_desc key xs)"
    by (simp add: sorted_wrt_mono_rel)
  then show ?thesis by (simp add: sorted_wrt_map)
qed

lemma set_sort_desc: "set (sort_desc key xs) = set xs"
  by (simp add: sort_desc_def)

lemma leakage_agg_subset:
  assumes "\<forall>xs. mset (engine_order xs) = mset xs"
  shows "set (leakage_agg engine_order clean) \<subseteq>
         leakage_group ` set (group_by pickup_loc (pl_filter leakage_filter clean))"
proof -
  have "set (engine_order xs) = set xs" for xs
    using assms by (metis set_mset_mset)
  then show ?thesis
    using set_take_subset by (fastforce simp: leakage_agg_def set_sort_desc)
qed

lemma leakage_agg_sorted:
  "sorted_wrt (\<ge>) (map missing_surcharge_count (leakage_agg engine_order clean))"
  unfolding leakage_agg_def take_map [symmetric]
  by (rule sorted_wrt_take) (rule sort_desc_sorted)

lemma leakage_group_rows:
  assumes "g \<in> set (group_by pickup_loc (pl_filter leakage_filter clean))"
  shows "\<exists>k. fst g = Some k \<and> k \<notin> set CONGESTION_ZONES \<and> snd g = leakage_rows_of k clean"
proof -
  from group_by_member [OF assms]
  have key: "fst g \<in> pickup_loc ` set (pl_filter leakage_filter clean)"
    and rows: "snd g = filter (\<lambda>r. pickup_loc r = fst g) (pl_filter leakage_filter clean)"
    by simp_all
  from key obtain k where k: "fst g = Some k" "k \<notin> set CONGESTION_ZONES"
    by (auto simp: pl_filter_def leakage_filter_true)
  have "snd g = leakage_rows_of k clean"
    unfolding rows k leakage_rows_of_def pl_filter_def filter_filter
    by (rule filter_cong) (auto simp: leakage_filter_true k)
  with k show ?thesis by blast
qed

text \<open>
  C4: whatever order the engine gives the groups, the leakage table has at most 10 rows,
  its \<open>missing_surcharge_count\<close> column does not increase from one row to the next, and
  every row is the group of a pickup zone outside the congestion zones: \<open>total_trips\<close>
  counts the clean rows picked up there and dropped off inside the congestion zones, and
  \<open>missing_surcharge_count\<close> counts those of them whose surcharge is exactly 0.0.
\<close>

theorem leakage_table_properties:
  assumes "\<forall>xs. mset (engine_order xs) = mset xs"
  shows "length (leakage_agg engine_order (q_clean q)) \<le> 10 \<and>
     sorted_wrt (\<ge>) (map missing_surcharge_count (leakage_agg engine_order (q_clean q))) \<and>
     (\<forall>g\<in>set (leakage_agg engine_order (q_clean q)).
        \<exists>k. lk_pickup_loc g = Some k \<and> k \<notin> set CONGESTION_ZONES \<and>
            total_trips g = length (leakage_rows_of k (q_clean q)) \<and>
            missing_surcharge_count g =
              length (filter (\<lambda>r. trip.congestion_surcharge r = Some (Fin 0))
                        (leakage_rows_of k (q_clean q))))"
proof (intro conjI ballI)
  show "length (leakage_agg engine_order (q_clean q)) \<le> 10"
    by (simp add: leakage_agg_def)
  show "sorted_wrt (\<ge>) (map missing_surcharge_count (leakage_agg engine_order (q_clean q)))"
    by (rule leakage_agg_sorted)
next
  fix g
  assume "g \<in> set (leakage_agg engine_order (q_clean q))"
  with leakage_agg_subset [OF assms] obtain grp where
    grp: "grp \<in> set (group_by pickup_loc (pl_filter leakage_filter (q_clean q)))"
    and g: "g = leakage_group grp"
    by blast
  from leakage_group_rows [OF grp] obtain k where
    k: "fst grp = Some k" "k \<notin> set CONGESTION_ZONES" "snd grp = leakage_rows_of k (q_clean q)"
    by blast
  show "\<exists>k. lk_pickup_loc g = Some k \<and> k \<notin> set CONGESTION_ZONES \<and>
            total_trips g = length (leakage_rows_of k (q_clean q)) \<and>
            missing_surcharge_count g =
              length (filter (\<lambda>r. trip.congestion_surcharge r = Some (Fin 0))
                        (leakage_rows_of k (q_clean q)))"
    using k by (intro exI [of _ k]) (simp add: g leakage_group_def col_eq_zero)
qed

theorem leakage_table_properties_witness:
  "(\<forall>xs :: leakage_row list. mset (rev xs) = mset xs) \<and>
   leakage_agg rev (q_clean (features sample_trips)) =
     [\<lparr> lk_pickup_loc = Some 7, total_trips = 2, missing_surcharge_count = 1 \<rparr>] \<and>
   length (leakage_agg rev (q_clean (features sample_trips))) \<le> 10 \<and>
   sorted_wrt (\<ge>) (map missing_surcharge_count (leakage_agg rev (q_clean (features sample_trips)))) \<and>
   7 \<notin> set CONGESTION_ZONES \<and>
   length (leakage_rows_of 7 (q_clean (features sample_trips))) = 2"
proof -
  have h: "\<forall>xs :: leakage_row list. mset (rev xs) = mset xs"
    by simp
  have e: "leakage_agg rev (q_clean (features sample_trips)) =
     [\<lparr> lk_pickup_loc = Some 7, total_trips = 2, missing_surcharge_count = 1 \<rparr>]"
    by code_simp
  have z: "7 \<notin> set CONGESTION_ZONES"
    by (simp add: CONGESTION_ZONES_def)
  have r: "length (leakage_rows_of 7 (q_clean (features sample_trips))) = 2"
    by code_simp
  from leakage_table_properties [OF h, of "features sample_trips"] h e z r
  show ?thesis by blast
qed

text \<open>
  C9: in every row of the leakage table the missing-surcharge count is at least 0 and at
  most \<open>total_trips\<close>.
\<close>

theorem leakage_missing_le_total:
  assumes "\<forall>xs. mset (engine_order xs) = mset xs"
  shows "\<forall>g\<in>set (leakage_agg engine_order clean).
           0 \<le> int (missing_surcharge_count g) \<and> missing_surcharge_count g \<le> total_trips g"
proof
  fix g
  assume "g \<in> set (leakage_agg engine_order clean)"
  with leakage_agg_subset [OF assms] obtain grp where "g = leakage_group grp"
    by blast
  then show "0 \<le> int (missing_surcharge_count g) \<and> missing_surcharge_count g \<le> total_trips g"
    by (simp add: leakage_group_def)
qed

theorem leakage_missing_le_total_witness:
  "(\<forall>xs :: leakage_row list. mset ((\<lambda>ys. ys) xs) = mset xs) \<and>
   leakage_agg (\<lambda>ys. ys) (features sample_trips) =
     [\<lparr> lk_pickup_loc = Some 7, total_trips = 2, missing_surcharge_count = 1 \<rparr>] \<and>
   (0::int) \<le> int 1 \<and> (1::nat) \<le> 2"
proof -
  have h: "\<forall>xs :: leakage_row list. mset ((\<lambda>ys. ys) xs) = mset xs"
    by simp
  have e: "leakage_agg (\<lambda>ys. ys) (features sample_trips) =
     [\<lparr> lk_pickup_loc = Some 7, total_trips = 2, missing_surcharge_count = 1 \<rparr>]"
    by code_simp
  from leakage_missing_le_total [OF h, of "features sample_trips"] e
  have "(0::int) \<le> int 1 \<and> (1::nat) \<le> 2"
    by simp
  with h e show ?thesis by blast
qed

section \<open>The weather join\<close>

lemma daily_counts_keys_distinct: "distinct (map fst (daily_counts clean))"
  using group_by_keys_distinct [of date clean] by (simp add: daily_counts_def comp_def)

lemma daily_counts_member:
  assumes "(k, c) \<in> set (daily_counts clean)"
  shows "k \<in> date ` set clean \<and> c = length (filter (\<lambda>r. date r = k) clean)"
  using assms by (auto simp: daily_counts_def group_by_def)

lemma weather_dates_2025:
  "weather_dates = [20089..20453]" "days_from_civil 2025 1 1 = 20089"
  "days_from_civil 2025 12 31 = 20453"
  by (simp_all add: weather_dates_def days_from_civil_def)

lemma fetch_weather_dates:
  assumes "fetch_weather precipitation = Inr weather_df"
  shows "map fst weather_df = weather_dates" "weather_df = zip weather_dates precipitation"
  using assms by (auto simp: fetch_weather_def split: if_splits)

lemma filter_key_le_one:
  "distinct (map fst ts) \<Longrightarrow> length (filter (\<lambda>t. fst t = k) ts) \<le> 1"
proof (induction ts)
  case Nil
  then show ?case by simp
next
  case (Cons t ts)
  show ?case
  proof (cases "fst t = k")
    case True
    from Cons.prems have "fst t \<notin> fst ` set ts"
      by simp
    with True have "filter (\<lambda>t. fst t = k) ts = []"
      by (simp add: filter_empty_conv) (metis imageI)
    with True show ?thesis by simp
  next
    case False
    with Cons show ?thesis by simp
  qed
qed

lemma join_inner_Cons:
  "join_inner (w # ws) ts =
     map (\<lambda>t. \<lparr> we_date = fst w, precipitation_mm = snd w, trip_count = snd t \<rparr>)
       (filter (\<lambda>t. fst t = Some (fst w)) ts) @ join_inner ws ts"
  by (simp add: join_inner_def)

lemma join_inner_member:
  "row \<in> set (join_inner ws ts) \<longleftrightarrow>
     (we_date row, precipitation_mm row) \<in> set ws \<and>
     (Some (we_date row), trip_count row) \<in> set ts"
proof (induction ws)
  case Nil
  show ?case by (simp add: join_inner_def)
next
  case (Cons w ws)
  have "row \<in> (\<lambda>t. \<lparr> we_date = fst w, precipitation_mm = snd w, trip_count = snd t \<rparr>) `
            {t \<in> set ts. fst t = Some (fst w)} \<longleftrightarrow>
        (we_date row, precipitation_mm row) = w \<and> (Some (we_date row), trip_count row) \<in> set ts"
    by (cases row; cases w) force
  with Cons show ?case
    by (auto simp: join_inner_Cons)
qed

lemma join_inner_dates:
  "set (map we_date (join_inner ws ts)) = {d \<in> fst ` set ws. Some d \<in> fst ` set ts}"
proof (rule set_eqI)
  fix d
  show "d \<in> set (map we_date (join_inner ws ts)) \<longleftrightarrow> d \<in> {d \<in> fst ` set ws. Some d \<in> fst ` set ts}"
  proof
    assume "d \<in> set (map we_date (join_inner ws ts))"
    then obtain row where "row \<in> set (join_inner ws ts)" "we_date row = d"
      by auto
    then show "d \<in> {d \<in> fst ` set ws. Some d \<in> fst ` set ts}"
      by (force simp: join_inner_member)
  next
    assume "d \<in> {d \<in> fst ` set ws. Some d \<in> fst ` set ts}"
    then obtain p c where "(d, p) \<in> set ws" "(Some d, c) \<in> set ts"
      by auto
    then have "\<lparr> we_date = d, precipitation_mm = p, trip_count = c \<rparr> \<in> set (join_inner ws ts)"
      by (simp add: join_inner_member)
    then show "d \<in> set (map we_date (join_inner ws ts))"
      by force
  qed
qed

lemma join_inner_distinct:
  assumes "distinct (map fst ts)"
  shows "distinct (map fst ws) \<Longrightarrow> distinct (map we_date (join_inner ws ts))"
proof (induction ws)
  case Nil
  show ?case by (simp add: join_inner_def)
next
  case (Cons w ws)
  let ?m = "filter (\<lambda>t. fst t = Some (fst w)) ts"
  have one: "length ?m \<le> 1"
    by (rule filter_key_le_one [OF assms])
  have head: "map we_date (map (\<lambda>t. \<lparr> we_date = fst w, precipitation_mm = snd w,
                 trip_count = snd t \<rparr>) ?m) = replicate (length ?m) (fst w)"
    by (simp add: map_replicate_const comp_def)
  have d1: "distinct (replicate (length ?m) (fst w))"
    using one by (cases "length ?m") simp_all
  have notin: "fst w \<notin> set (map we_date (join_inner ws ts))"
    unfolding join_inner_dates using Cons.prems by auto
  have split: "map we_date (join_inner (w # ws) ts) =
      replicate (length ?m) (fst w) @ map we_date (join_inner ws ts)"
    unfolding join_inner_Cons map_append head ..
  have ih: "distinct (map we_date (join_inner ws ts))"
    using Cons by simp
  have "set (replicate (length ?m) (fst w)) \<subseteq> {fst w}"
    by auto
  with notin have "set (replicate (length ?m) (fst w)) \<inter> set (map we_date (join_inner ws ts)) = {}"
    by blast
  with d1 ih show ?case
    unfolding split distinct_append by blast
qed

lemma join_inner_length:
  assumes "distinct (map fst ts)" "distinct (map fst ws)"
  shows "length (join_inner ws ts) \<le> min (length ts) (length ws)"
proof -
  let ?D = "{d \<in> fst ` set ws. Some d \<in> fst ` set ts}"
  have "length (join_inner ws ts) = length (map we_date (join_inner ws ts))"
    by simp
  also have "\<dots> = card (set (map we_date (join_inner ws ts)))"
    using join_inner_distinct [OF assms] by (simp only: distinct_card)
  also have "\<dots> = card ?D"
    by (simp only: join_inner_dates)
  finally have len: "length (join_inner ws ts) = card ?D" .
  have "card ?D \<le> card (fst ` set ws)"
    by (rule card_mono) auto
  also have "\<dots> \<le> length ws"
    by (metis card_image_le card_length le_trans List.finite_set)
  finally have a: "card ?D \<le> length ws" .
  have "card ?D = card (Some ` ?D)"
    by (simp add: card_image)
  also have "\<dots> \<le> card (fst ` set ts)"
    by (rule card_mono) auto
  also have "\<dots> \<le> length ts"
    by (metis card_image_le card_length le_trans List.finite_set)
  finally have b: "card ?D \<le> length ts" .
  from len a b show ?thesis by simp
qed

text \<open>
  C6: the weather-elasticity table is the inner join of the daily precipitation series and
  the daily trip counts on the date.  The dates of its rows are exactly the dates present
  on both sides, each once; a row carries the precipitation of its date and the number of
  clean rows of that date; and the table has at most as many rows as the shorter side.
\<close>

theorem weather_join_inner:
  assumes "weather_elasticity precipitation clean = Inr out"
  shows "set (map we_date out) =
           set weather_dates \<inter> {d. Some d \<in> set (map fst (daily_counts clean))} \<and>
         distinct (map we_date out) \<and>
         (\<forall>row\<in>set out.
            (we_date row, precipitation_mm row) \<in> set (zip weather_dates precipitation) \<and>
            (Some (we_date row), trip_count row) \<in> set (daily_counts clean) \<and>
            trip_count row = length (filter (\<lambda>r. date r = Some (we_date row)) clean)) \<and>
         length out \<le> min (length (daily_counts clean)) (length weather_dates)"
proof -
  from assms obtain weather_df where
    w: "fetch_weather precipitation = Inr weather_df"
    and out: "out = join_inner weather_df (daily_counts clean)"
    by (auto simp: weather_elasticity_def split: sum.splits)
  note wd = fetch_weather_dates [OF w]
  have fst_w: "fst ` set weather_df = set weather_dates"
    using wd(1) by (metis set_map)
  have dw: "distinct (map fst weather_df)"
    by (simp add: wd(1) weather_dates_def)
  have "set (map we_date out) =
           set weather_dates \<inter> {d. Some d \<in> set (map fst (daily_counts clean))}"
    unfolding out join_inner_dates fst_w by auto
  moreover have "distinct (map we_date out)"
    unfolding out by (rule join_inner_distinct [OF daily_counts_keys_distinct dw])
  moreover have "\<forall>row\<in>set out.
            (we_date row, precipitation_mm row) \<in> set (zip weather_dates precipitation) \<and>
            (Some (we_date row), trip_count row) \<in> set (daily_counts clean) \<and>
            trip_count row = length (filter (\<lambda>r. date r = Some (we_date row)) clean)"
    using daily_counts_member by (auto simp: out join_inner_member wd(2))
  moreover have "length out \<le> min (length (daily_counts clean)) (length weather_dates)"
    using join_inner_length [OF daily_counts_keys_distinct dw] wd(1)
    by (metis out length_map)
  ultimately show ?thesis by blast
qed

theorem weather_join_inner_witness:
  "weather_elasticity dry_year (q_clean (features [new_year_trip, unpaid_crossing])) =
     Inr [\<lparr> we_date = 20089, precipitation_mm = Fin 0, trip_count = 1 \<rparr>] \<and>
   map fst (daily_counts (q_clean (features [new_year_trip, unpaid_crossing]))) =
     [Some 20089, Some 0] \<and>
   (1::nat) \<le> min (length (daily_counts (q_clean (features [new_year_trip, unpaid_crossing]))))
                   (length weather_dates)"
proof -
  have e: "weather_elasticity dry_year (q_clean (features [new_year_trip, unpaid_crossing])) =
     Inr [\<lparr> we_date = 20089, precipitation_mm = Fin 0, trip_count = 1 \<rparr>]"
    by code_simp
  have k: "map fst (daily_counts (q_clean (features [new_year_trip, unpaid_crossing]))) =
     [Some 20089, Some 0]"
    by code_simp
  from weather_join_inner [OF e]
  have "(1::nat) \<le> min (length (daily_counts (q_clean (features [new_year_trip, unpaid_crossing]))))
                   (length weather_dates)"
    by simp
  with e k show ?thesis by blast
qed

text \<open>
  C10: every date of the weather-elasticity table lies between 2025-01-01 and 2025-12-31,
  both included.
\<close>

theorem weather_dates_in_2025:
  assumes "weather_elasticity precipitation clean = Inr out"
  shows "\<forall>row\<in>set out.
           days_from_civil 2025 1 1 \<le> we_date row \<and> we_date row \<le> days_from_civil 2025 12 31"
proof
  fix row
  assume r: "row \<in> set out"
  from assms obtain weather_df where
    w: "fetch_weather precipitation = Inr weather_df"
    and out: "out = join_inner weather_df (daily_counts clean)"
    by (auto simp: weather_elasticity_def split: sum.splits)
  from r have "(we_date row, precipitation_mm row) \<in> set weather_df"
    by (simp add: out join_inner_member)
  then have "we_date row \<in> set (map fst weather_df)"
    by force
  then have "we_date row \<in> set weather_dates"
    by (simp only: fetch_weather_dates(1) [OF w])
  then show "days_from_civil 2025 1 1 \<le> we_date row \<and> we_date row \<le> days_from_civil 2025 12 31"
    by (simp add: weather_dates_def)
qed

theorem weather_dates_in_2025_witness:
  "weather_elasticity dry_year (q_clean (features [year_end_trip, year_end_trip, paid_crossing])) =
     Inr [\<lparr> we_date = 20453, precipitation_mm = Fin 0, trip_count = 2 \<rparr>] \<and>
   days_from_civil 2025 1 1 \<le> 20453 \<and> 20453 \<le> days_from_civil 2025 12 31 \<and>
   days_from_civil 2025 12 31 = 20453"
proof -
  have e: "weather_elasticity dry_year (q_clean (features [year_end_trip, year_end_trip, paid_crossing])) =
     Inr [\<lparr> we_date = 20453, precipitation_mm = Fin 0, trip_count = 2 \<rparr>]"
    by code_simp
  from weather_dates_in_2025 [OF e]
  have "days_from_civil 2025 1 1 \<le> 20453 \<and> 20453 \<le> days_from_civil 2025 12 31"
    by simp
  with e show ?thesis by (simp add: weather_dates_2025)
qed

end
